theory Spec2Isabelle
  imports Main "HOL-Library.AList"
begin

section \<open>JavaScript values\<close>

text \<open>
  The values the modelled functions handle: what \<^verbatim>\<open>JSON.parse\<close> yields, plus
  \<^verbatim>\<open>undefined\<close> and \<^verbatim>\<open>NaN\<close>. A string is a list of code units, an object an
  association list in insertion order. No modelled function computes with a number; only
  whether it is zero or \<^verbatim>\<open>NaN\<close> is ever inspected (by truthiness).
\<close>

datatype jsval =
    JUndefined
  | JNull
  | JBool bool
  | JNum int
  | JNaN
  | JStr string
  | JArr "jsval list"
  | JObj "(string \<times> jsval) list"

datatype error =
    TypeError
  | SyntaxError
  | FetchError
  | ScriptError
  | PluginError

text \<open>\<^verbatim>\<open>!v\<close> is \<open>\<not> truthy v\<close>.\<close>

fun truthy :: "jsval \<Rightarrow> bool" where
  "truthy JUndefined = False"
| "truthy JNull = False"
| "truthy (JBool b) = b"
| "truthy (JNum n) = (n \<noteq> 0)"
| "truthy JNaN = False"
| "truthy (JStr s) = (s \<noteq> [])"
| "truthy (JArr xs) = True"
| "truthy (JObj kvs) = True"

section \<open>String primitives\<close>

text \<open>\<^verbatim>\<open>s.endsWith(suf)\<close>\<close>

definition endsWith :: "string \<Rightarrow> string \<Rightarrow> bool" where
  "endsWith s suf \<longleftrightarrow>
     length suf \<le> length s \<and> drop (length s - length suf) s = suf"

text \<open>\<^verbatim>\<open>s.slice(b, e)\<close>: a negative index counts from the end, and both are clamped.\<close>

definition slice :: "string \<Rightarrow> int \<Rightarrow> int \<Rightarrow> string" where
  "slice s b e =
     (let n = int (length s);
          from = (if b < 0 then max (n + b) 0 else min b n);
          to = (if e < 0 then max (n + e) 0 else min e n)
      in take (nat (to - from)) (drop (nat from) s))"

text \<open>\<^verbatim>\<open>s.includes(p)\<close>: \<open>p\<close> occurs at some position of \<open>s\<close>.\<close>

definition occursAt :: "string \<Rightarrow> string \<Rightarrow> nat \<Rightarrow> bool" where
  "occursAt s p i \<longleftrightarrow> i + length p \<le> length s \<and> take (length p) (drop i s) = p"

definition includesStr :: "string \<Rightarrow> string \<Rightarrow> bool" where
  "includesStr s p \<longleftrightarrow> list_ex (occursAt s p) [0..<Suc (length s)]"

text \<open>\<^verbatim>\<open>s.lastIndexOf(p)\<close>: the greatest position of \<open>p\<close> in \<open>s\<close>, or \<open>-1\<close>.\<close>

definition lastIndexOf :: "string \<Rightarrow> string \<Rightarrow> int" where
  "lastIndexOf s p =
     (case filter (occursAt s p) (rev [0..<Suc (length s)]) of
        [] \<Rightarrow> - 1
      | i # _ \<Rightarrow> int i)"

section \<open>Name cleanup\<close>

definition suffixesToRemove :: "string list" where
  "suffixesToRemove =
     ['' - Topic'',
      ''VEVO'',
      '' (Performance Video)'',
      '' (Official Music Video)'',
      '' (Official Video)'',
      '' (Clip officiel)'']"

text \<open>
  The \<^verbatim>\<open>for (const suffix of suffixesToRemove)\<close> loop of \<^verbatim>\<open>cleanupName\<close>: the first
  suffix of the list that the name ends with is cut off and the loop is left.
\<close>

fun stripFirst :: "string \<Rightarrow> string list \<Rightarrow> string" where
  "stripFirst artist [] = artist"
| "stripFirst artist (suffix # rest) =
     (if endsWith artist suffix then slice artist 0 (- int (length suffix))
      else stripFirst artist rest)"

text \<open>
  \<^verbatim>\<open>cleanupName(artist)\<close>. A falsy argument is returned as it is; on a truthy
  value that is not a string, \<^verbatim>\<open>artist.endsWith\<close> is not a function and the call
  raises a \<^verbatim>\<open>TypeError\<close>.
\<close>

definition cleanupName :: "jsval \<Rightarrow> error + jsval" where
  "cleanupName artist =
     (if \<not> truthy artist then Inr artist
      else (case artist of
              JStr s \<Rightarrow> Inr (JStr (stripFirst s suffixesToRemove))
            | _ \<Rightarrow> Inl TypeError))"

section \<open>Objects\<close>

text \<open>
  Member access \<^verbatim>\<open>v[k]\<close> and \<^verbatim>\<open>v?.k\<close>, for the property names this program
  uses (\<^verbatim>\<open>videoDetails\<close>, \<^verbatim>\<open>title\<close>, \<^verbatim>\<open>cancel\<close>, the header names, ...): none of
  them is defined by a built-in prototype, so only an object's own properties answer.
\<close>

definition ownProp :: "(string \<times> jsval) list \<Rightarrow> string \<Rightarrow> jsval" where
  "ownProp kvs k = (case map_of kvs k of None \<Rightarrow> JUndefined | Some v \<Rightarrow> v)"

fun memberGet :: "jsval \<Rightarrow> string \<Rightarrow> error + jsval" where
  "memberGet JUndefined k = Inl TypeError"
| "memberGet JNull k = Inl TypeError"
| "memberGet (JObj kvs) k = Inr (ownProp kvs k)"
| "memberGet v k = Inr JUndefined"

fun optGet :: "jsval \<Rightarrow> string \<Rightarrow> jsval" where
  "optGet (JObj kvs) k = ownProp kvs k"
| "optGet v k = JUndefined"

text \<open>\<^verbatim>\<open>delete v[k]\<close>\<close>

fun deleteProp :: "jsval \<Rightarrow> string \<Rightarrow> jsval" where
  "deleteProp (JObj kvs) k = JObj (filter (\<lambda>kv. fst kv \<noteq> k) kvs)"
| "deleteProp v k = v"

text \<open>The decimal numeral of an array index, as a property name.\<close>

fun decimal :: "nat \<Rightarrow> string" where
  "decimal n =
     (if n < 10 then [char_of (48 + n)]
      else decimal (n div 10) @ [char_of (48 + n mod 10)])"

text \<open>
  The own enumerable properties that a spread \<^verbatim>\<open>{...v}\<close> copies: those of an object,
  the indexed elements of an array or string, and nothing for the other values.
\<close>

fun ownEnumerable :: "jsval \<Rightarrow> (string \<times> jsval) list" where
  "ownEnumerable (JObj kvs) = kvs"
| "ownEnumerable (JArr xs) = zip (map decimal [0..<length xs]) xs"
| "ownEnumerable (JStr s) = zip (map decimal [0..<length s]) (map (\<lambda>c. JStr [c]) s)"
| "ownEnumerable v = []"

text \<open>
  \<^verbatim>\<open>{...a, ...b}\<close> on the property lists: a property of \<open>b\<close> overwrites the one of
  \<open>a\<close> in place, a new one is appended.
\<close>

definition assign :: "(string \<times> jsval) list \<Rightarrow> (string \<times> jsval) list \<Rightarrow> (string \<times> jsval) list" where
  "assign a b = foldl (\<lambda>obj kv. AList.update (fst kv) (snd kv) obj) a b"

section \<open>The header listener and the resolver (index.js)\<close>

record details =
  responseHeaders :: jsval

text \<open>
  The \<^verbatim>\<open>onHeadersReceived\<close> listener of \<^verbatim>\<open>removeContentSecurityPolicy\<close>. It returns
  what it hands to \<^verbatim>\<open>callback\<close> (or the error it raises) and the \<^verbatim>\<open>details\<close> it
  leaves behind: the two \<^verbatim>\<open>delete\<close> statements change the header object in place.
\<close>

definition cspListener :: "details \<Rightarrow> (error + jsval) \<times> details" where
  "cspListener d =
     (case memberGet (responseHeaders d) ''content-security-policy-report-only'' of
        Inl e \<Rightarrow> (Inl e, d)
      | Inr reportOnly \<Rightarrow>
          (case memberGet (responseHeaders d) ''content-security-policy'' of
             Inl e \<Rightarrow> (Inl e, d)
           | Inr csp \<Rightarrow>
               if \<not> truthy reportOnly \<and> \<not> truthy csp
               then (Inr (JObj [(''cancel'', JBool False)]), d)
               else
                 (let hs = deleteProp
                             (deleteProp (responseHeaders d)
                                ''content-security-policy-report-only'')
                             ''content-security-policy''
                  in (Inr (JObj [(''cancel'', JBool False), (''responseHeaders'', hs)]),
                      d\<lparr>responseHeaders := hs\<rparr>))))"

text \<open>
  A listener as the resolver sees it: \<^verbatim>\<open>listener.apply()\<close> takes no argument, acts
  on the state it shares with the other listeners (the \<^verbatim>\<open>details\<close> of the event)
  and settles with a result or an error.
\<close>

type_synonym 'st applier = "'st \<Rightarrow> (error + jsval) \<times> 'st"

datatype promise = Fulfilled jsval | Rejected error

text \<open>
  The accumulator of \<^verbatim>\<open>listeners.reduce\<close>: the initial value is a plain object,
  but the callback is an \<^verbatim>\<open>async\<close> function, so what it returns, and what the next
  call receives as accumulator, is a promise.
\<close>

datatype accumulator = Plain jsval | Promised promise

text \<open>
  \<^verbatim>\<open>accumulator.cancel\<close>: a promise object has no property \<^verbatim>\<open>cancel\<close>. The only
  plain accumulator is the initial object, so the read cannot raise.
\<close>

fun cancelOf :: "accumulator \<Rightarrow> jsval" where
  "cancelOf (Plain v) = optGet v ''cancel''"
| "cancelOf (Promised p) = JUndefined"

text \<open>\<^verbatim>\<open>{...accumulator}\<close>: a promise object has no own enumerable property.\<close>

fun spreadOf :: "accumulator \<Rightarrow> (string \<times> jsval) list" where
  "spreadOf (Plain v) = ownEnumerable v"
| "spreadOf (Promised p) = []"

text \<open>\<^verbatim>\<open>return accumulator\<close> in an \<^verbatim>\<open>async\<close> function.\<close>

fun asyncReturn :: "accumulator \<Rightarrow> accumulator" where
  "asyncReturn (Plain v) = Promised (Fulfilled v)"
| "asyncReturn (Promised p) = Promised p"

text \<open>
  The \<^verbatim>\<open>reduce\<close> of the resolver, one equation per call of its callback. The state
  carries what the listeners share and the positions of the listeners whose
  \<^verbatim>\<open>apply\<close> has been called, in call order.
\<close>

fun reduceListeners ::
  "'st applier list \<Rightarrow> nat \<Rightarrow> accumulator \<Rightarrow> 'st \<Rightarrow> nat list \<Rightarrow> accumulator \<times> 'st \<times> nat list" where
  "reduceListeners [] i acc st invoked = (acc, st, invoked)"
| "reduceListeners (listener # rest) i acc st invoked =
     (if truthy (cancelOf acc)
      then reduceListeners rest (Suc i) (asyncReturn acc) st invoked
      else
        (case listener st of
           (Inl e, st') \<Rightarrow>
             reduceListeners rest (Suc i) (Promised (Rejected e)) st' (invoked @ [i])
         | (Inr result, st') \<Rightarrow>
             reduceListeners rest (Suc i)
               (Promised (Fulfilled (JObj (assign (spreadOf acc) (ownEnumerable result)))))
               st' (invoked @ [i])))"

definition resolver :: "'st applier list \<Rightarrow> 'st \<Rightarrow> accumulator \<times> 'st \<times> nat list" where
  "resolver listeners st =
     reduceListeners listeners 0 (Plain (JObj [(''cancel'', JBool False)])) st []"



definition invokedBy :: "'st applier list \<Rightarrow> 'st \<Rightarrow> nat list" where
  "invokedBy listeners st = snd (snd (resolver listeners st))"


text \<open>
  The specification's case-insensitive recognition of a header name, for comparison
  with the exact lookups of \<open>cspListener\<close>.
\<close>

definition toLowerChar :: "char \<Rightarrow> char" where
  "toLowerChar c =
     (if 65 \<le> (of_char c :: nat) \<and> (of_char c :: nat) \<le> 90
      then char_of ((of_char c :: nat) + 32) else c)"

definition spec_hasHeader :: "jsval \<Rightarrow> string \<Rightarrow> bool" where
  "spec_hasHeader hs name \<longleftrightarrow>
     list_ex (\<lambda>kv. map toLowerChar (fst kv) = name) (ownEnumerable hs)"

section \<open>Song information (providers/song-info)\<close>

datatype nativeImage = EmptyImage | Picture "nat list"

definition isEmpty :: "nativeImage \<Rightarrow> bool" where
  "isEmpty output \<longleftrightarrow> output = EmptyImage"

record song_info =
  title :: jsval
  artist :: jsval
  views :: jsval
  uploadDate :: jsval
  imageSrc :: jsval
  image_si :: "nativeImage option"
  isPaused :: jsval
  songDuration :: jsval
  elapsedSeconds :: jsval
  url :: jsval

definition songInfo0 :: song_info where
  "songInfo0 =
     \<lparr>title = JStr [], artist = JStr [], views = JNum 0, uploadDate = JStr [],
      imageSrc = JStr [], image_si = None, isPaused = JUndefined, songDuration = JNum 0,
      elapsedSeconds = JNum 0, url = JStr []\<rparr>"

text \<open>
  The module state: the shared \<^verbatim>\<open>songInfo\<close> object and the \<^verbatim>\<open>callbacks\<close> array,
  together with what the handlers do to the outside, in the order in which they do it:
  a message of \<^verbatim>\<open>win.webContents.send\<close> (channel, payload), or the call of an
  observer (position in \<^verbatim>\<open>callbacks\<close>, snapshot passed). An observer is taken to read
  the snapshot only; it returns or raises.
\<close>

type_synonym callback = "song_info \<Rightarrow> error option"

datatype effect = Sent string string | Called nat song_info

record world =
  songInfo :: song_info
  callbacks :: "callback list"
  effects :: "effect list"





text \<open>
  What the awaited calls into the page, the network and the built-ins settle to while
  one handler runs: \<^verbatim>\<open>executeJavaScript\<close> of the three page scripts,
  \<^verbatim>\<open>fetch(src)\<close> followed by \<^verbatim>\<open>result.buffer()\<close>, \<^verbatim>\<open>nativeImage.createFromBuffer\<close>,
  \<^verbatim>\<open>JSON.parse\<close> and \<^verbatim>\<open>JSON.stringify\<close>. They are parameters of the model. So is
  \<open>meanwhile\<close>: the handlers are \<^verbatim>\<open>async\<close> functions, and while one waits at an
  \<^verbatim>\<open>await\<close> the handlers of other events may run on the same module state;
  \<open>meanwhile pg i w\<close> is the module state they have made of \<open>w\<close> when the handler
  resumes from its \<open>i\<close>-th wait. The waits inside \<^verbatim>\<open>getPausedStatus\<close> and
  \<^verbatim>\<open>getImage\<close> count as one with the wait for their result: the handler does nothing
  to the module state in between.
\<close>

record page =
  documentTitle :: "error + jsval"
  progressValue :: "error + jsval"
  artistText :: "error + jsval"
  fetchBuffer :: "jsval \<Rightarrow> error + nat list"
  createFromBuffer :: "nat list \<Rightarrow> nativeImage"
  JSON_parse :: "string \<Rightarrow> error + jsval"
  JSON_stringify :: "song_info \<Rightarrow> string"
  meanwhile :: "nat \<Rightarrow> world \<Rightarrow> world"

definition getProgress :: "page \<Rightarrow> error + jsval" where
  "getProgress pg = progressValue pg"

text \<open>
  \<^verbatim>\<open>!title.includes("-")\<close>: on a string the substring test, on an array the
  element test; any other value has no callable \<^verbatim>\<open>includes\<close>.
\<close>

definition getPausedStatus :: "page \<Rightarrow> error + jsval" where
  "getPausedStatus pg =
     (case documentTitle pg of
        Inl e \<Rightarrow> Inl e
      | Inr (JStr s) \<Rightarrow> Inr (JBool (\<not> includesStr s ''-''))
      | Inr (JArr xs) \<Rightarrow> Inr (JBool (JStr ''-'' \<notin> set xs))
      | Inr _ \<Rightarrow> Inl TypeError)"

definition getArtist :: "page \<Rightarrow> error + jsval" where
  "getArtist pg = artistText pg"

text \<open>
  The cut of \<^verbatim>\<open>getImage\<close>: \<^verbatim>\<open>src.slice(0, src.lastIndexOf(".jpg") + 4)\<close>.
\<close>

definition truncateJpg :: "string \<Rightarrow> string" where
  "truncateJpg s = slice s 0 (lastIndexOf s ''.jpg'' + 4)"

text \<open>
  Facts on the string primitives that the termination of \<^verbatim>\<open>getImage\<close> rests on: the
  cut ends right after the last \<^verbatim>\<open>.jpg\<close>.
\<close>

lemma filter_Cons_holds: "filter P xs = i # rest \<Longrightarrow> P i"
  by (metis filter_eq_ConsD)

lemma lastIndexOf_occurs:
  assumes "includesStr s p"
  shows "\<exists>i. lastIndexOf s p = int i \<and> occursAt s p i"
proof -
  let ?cands = "rev [0..<Suc (length s)]"
  from assms obtain j where j: "j \<in> set ?cands" "occursAt s p j"
    unfolding includesStr_def list_ex_iff set_rev by blast
  then have "filter (occursAt s p) ?cands \<noteq> []"
    unfolding filter_empty_conv by blast
  then obtain i rest where f: "filter (occursAt s p) ?cands = i # rest"
    by (cases "filter (occursAt s p) ?cands") blast+
  have "occursAt s p i" by (rule filter_Cons_holds [OF f])
  moreover have "lastIndexOf s p = int i" unfolding lastIndexOf_def f by simp
  ultimately show ?thesis by blast
qed

lemma occursAt_take_endsWith:
  assumes "occursAt s p i"
  shows "endsWith (take (i + length p) s) p"
proof -
  from assms have le: "i + length p \<le> length s" and tk: "take (length p) (drop i s) = p"
    by (auto simp: occursAt_def)
  have len: "length (take (i + length p) s) = i + length p" using le by simp
  have "drop i (take (i + length p) s) = take (length p) (drop i s)"
    by (simp add: drop_take)
  with tk have "drop i (take (i + length p) s) = p" by simp
  then show ?thesis unfolding endsWith_def len by simp
qed

lemma slice_0_nonneg: "0 \<le> e \<Longrightarrow> slice s 0 e = take (nat e) s"
  by (auto simp: slice_def Let_def min_def)

lemma slice_0_neg: "0 < k \<Longrightarrow> slice s 0 (- int k) = take (length s - k) s"
proof -
  assume k: "0 < k"
  have "nat (max (int (length s) + - int k) 0) = length s - k" by (simp add: max_def) arith
  with k show ?thesis by (simp add: slice_def Let_def)
qed

lemma truncateJpg_take:
  assumes "lastIndexOf s ''.jpg'' = int i" "occursAt s ''.jpg'' i"
  shows "truncateJpg s = take (i + 4) s"
proof -
  have n: "nat (int i + 4) = i + 4" by simp
  show ?thesis
    unfolding truncateJpg_def assms(1) by (simp only: slice_0_nonneg n)
qed

lemma truncateJpg_endsWith:
  assumes "includesStr s ''.jpg''"
  shows "endsWith (truncateJpg s) ''.jpg''"
proof -
  from lastIndexOf_occurs [OF assms] obtain i
    where i: "lastIndexOf s ''.jpg'' = int i" "occursAt s ''.jpg'' i" by blast
  have four: "length ''.jpg'' = 4" by simp
  from occursAt_take_endsWith [OF i(2)] show ?thesis
    unfolding truncateJpg_take [OF i] four .
qed

text \<open>
  \<^verbatim>\<open>getImage(src)\<close>, with the list of the sources it fetched. A rejected fetch
  rejects the call; \<^verbatim>\<open>src.endsWith\<close> on a value that is not a string raises.
\<close>

function getImage :: "page \<Rightarrow> jsval \<Rightarrow> (error + nativeImage) \<times> jsval list" where
  "getImage pg src =
     (case fetchBuffer pg src of
        Inl e \<Rightarrow> (Inl e, [src])
      | Inr buffer \<Rightarrow>
          (let output = createFromBuffer pg buffer
           in if isEmpty output
              then (case src of
                      JStr s \<Rightarrow>
                        if \<not> endsWith s ''.jpg'' \<and> includesStr s ''.jpg''
                        then (case getImage pg (JStr (truncateJpg s)) of
                                (r, fetched) \<Rightarrow> (r, src # fetched))
                        else (Inr output, [src])
                    | _ \<Rightarrow> (Inl TypeError, [src]))
              else (Inr output, [src])))"
  by pat_completeness auto
termination
proof (relation "measure (\<lambda>(pg, src). case src of JStr s \<Rightarrow> (if endsWith s ''.jpg'' then 0 else 1) | _ \<Rightarrow> 0)")
  show "wf (measure (\<lambda>(pg, src). case src of JStr s \<Rightarrow> (if endsWith s ''.jpg'' then 0 else 1) | _ \<Rightarrow> 0))"
    by simp
next
  fix pg :: page and src :: jsval and s
  assume "\<not> endsWith s ''.jpg'' \<and> includesStr s ''.jpg''" and "src = JStr s"
  then show "((pg, JStr (truncateJpg s)), pg, src)
      \<in> measure (\<lambda>(pg, src). case src of JStr s \<Rightarrow> (if endsWith s ''.jpg'' then 0 else 1) | _ \<Rightarrow> 0)"
    by (simp add: truncateJpg_endsWith)
qed

declare getImage.simps [simp del]

definition registerCallback :: "callback \<Rightarrow> world \<Rightarrow> world" where
  "registerCallback callback w = w\<lparr>callbacks := callbacks w @ [callback]\<rparr>"

text \<open>
  Sequencing of statements that may raise: the first error ends the run and keeps the
  state reached so far.
\<close>

definition andThen :: "error option \<times> 'w \<Rightarrow> ('w \<Rightarrow> error option \<times> 'w) \<Rightarrow> error option \<times> 'w" where
  "andThen r f = (case r of (Some e, w) \<Rightarrow> (Some e, w) | (None, w) \<Rightarrow> f w)"

text \<open>The statements of \<^verbatim>\<open>handleData\<close>, in source order.\<close>

definition setTitle :: "jsval \<Rightarrow> world \<Rightarrow> error option \<times> world" where
  "setTitle data w =
     (case cleanupName (optGet (optGet data ''videoDetails'') ''title'') of
        Inl e \<Rightarrow> (Some e, w)
      | Inr t \<Rightarrow> (None, w\<lparr>songInfo := (songInfo w)\<lparr>title := t\<rparr>\<rparr>))"

text \<open>
  \<^verbatim>\<open>(await getArtist(win)) || cleanupName(data?.videoDetails?.author)\<close>, and the
  statement that assigns it: the handler waits for the page script (its wait 0)
  before it assigns.
\<close>

definition resolveArtist :: "page \<Rightarrow> jsval \<Rightarrow> error + jsval" where
  "resolveArtist pg data =
     (case getArtist pg of
        Inl e \<Rightarrow> Inl e
      | Inr a \<Rightarrow>
          if truthy a then Inr a
          else cleanupName (optGet (optGet data ''videoDetails'') ''author''))"

definition setArtist :: "page \<Rightarrow> jsval \<Rightarrow> world \<Rightarrow> error option \<times> world" where
  "setArtist pg data w =
     (let w' = meanwhile pg 0 w
      in case resolveArtist pg data of
           Inl e \<Rightarrow> (Some e, w')
         | Inr a \<Rightarrow> (None, w'\<lparr>songInfo := (songInfo w')\<lparr>artist := a\<rparr>\<rparr>))"

definition setViews :: "jsval \<Rightarrow> world \<Rightarrow> error option \<times> world" where
  "setViews data w =
     (None, w\<lparr>songInfo := (songInfo w)\<lparr>views := optGet (optGet data ''videoDetails'') ''viewCount''\<rparr>\<rparr>)"

text \<open>
  \<^verbatim>\<open>data?.videoDetails?.thumbnail?.thumbnails?.pop()?.url\<close>: only an array has a
  callable \<^verbatim>\<open>pop\<close>.
\<close>

definition lastThumbnailUrl :: "jsval \<Rightarrow> error + jsval" where
  "lastThumbnailUrl data =
     (case optGet (optGet (optGet data ''videoDetails'') ''thumbnail'') ''thumbnails'' of
        JUndefined \<Rightarrow> Inr JUndefined
      | JNull \<Rightarrow> Inr JUndefined
      | JArr xs \<Rightarrow> Inr (optGet (if xs = [] then JUndefined else last xs) ''url'')
      | _ \<Rightarrow> Inl TypeError)"

definition setImageSrc :: "jsval \<Rightarrow> world \<Rightarrow> error option \<times> world" where
  "setImageSrc data w =
     (case lastThumbnailUrl data of
        Inl e \<Rightarrow> (Some e, w)
      | Inr src \<Rightarrow> (None, w\<lparr>songInfo := (songInfo w)\<lparr>imageSrc := src\<rparr>\<rparr>))"

definition setSongDuration :: "jsval \<Rightarrow> world \<Rightarrow> error option \<times> world" where
  "setSongDuration data w =
     (None, w\<lparr>songInfo := (songInfo w)\<lparr>songDuration := optGet (optGet data ''videoDetails'') ''lengthSeconds''\<rparr>\<rparr>)"

text \<open>
  \<^verbatim>\<open>songInfo.image = await getImage(songInfo.imageSrc)\<close>: the source is read before
  the handler waits (its wait 1), the image is assigned after.
\<close>

definition setImage :: "page \<Rightarrow> world \<Rightarrow> error option \<times> world" where
  "setImage pg w =
     (let src = imageSrc (songInfo w);
          w' = meanwhile pg 1 w
      in case fst (getImage pg src) of
           Inl e \<Rightarrow> (Some e, w')
         | Inr img \<Rightarrow> (None, w'\<lparr>songInfo := (songInfo w')\<lparr>image_si := Some img\<rparr>\<rparr>))"

definition setMicroformat :: "jsval \<Rightarrow> world \<Rightarrow> error option \<times> world" where
  "setMicroformat data w =
     (let renderer = optGet (optGet data ''microformat'') ''microformatDataRenderer''
      in (None, w\<lparr>songInfo := (songInfo w)\<lparr>uploadDate := optGet renderer ''uploadDate'',
                                             url := optGet renderer ''urlCanonical''\<rparr>\<rparr>))"

definition sendUpdate :: "page \<Rightarrow> world \<Rightarrow> error option \<times> world" where
  "sendUpdate pg w =
     (None, w\<lparr>effects := effects w @ [Sent ''update-song-info'' (JSON_stringify pg (songInfo w))]\<rparr>)"

definition handleData :: "page \<Rightarrow> string \<Rightarrow> world \<Rightarrow> error option \<times> world" where
  "handleData pg responseText w =
     (case JSON_parse pg responseText of
        Inl e \<Rightarrow> (Some e, w)
      | Inr data \<Rightarrow>
          andThen (andThen (andThen (andThen (andThen (andThen (andThen
            (setTitle data w)
            (setArtist pg data))
            (setViews data))
            (setImageSrc data))
            (setSongDuration data))
            (setImage pg))
            (setMicroformat data))
            (sendUpdate pg))"

text \<open>
  \<^verbatim>\<open>callbacks.forEach((c) => { c(songInfo); })\<close>: an observer that raises ends the
  loop.
\<close>

fun forEachCallback ::
  "callback list \<Rightarrow> nat \<Rightarrow> song_info \<Rightarrow> effect list \<Rightarrow> error option \<times> effect list" where
  "forEachCallback [] i info sofar = (None, sofar)"
| "forEachCallback (c # cs) i info sofar =
     (case c info of
        Some e \<Rightarrow> (Some e, sofar @ [Called i info])
      | None \<Rightarrow> forEachCallback cs (Suc i) info (sofar @ [Called i info]))"

definition triggerCallbacks :: "world \<Rightarrow> error option \<times> world" where
  "triggerCallbacks w =
     (case forEachCallback (callbacks w) 0 (songInfo w) (effects w) of
        (r, sofar) \<Rightarrow> (r, w\<lparr>effects := sofar\<rparr>))"

text \<open>
  The two handlers that \<^verbatim>\<open>registerProvider\<close> installs. The first waits for the
  paused status (wait 0) and for the progress (wait 1); the second waits for
  \<^verbatim>\<open>handleData\<close> (wait 2, after the two waits of \<^verbatim>\<open>handleData\<close> itself) before it
  calls the observers.
\<close>

definition onPageTitleUpdated :: "page \<Rightarrow> world \<Rightarrow> error option \<times> world" where
  "onPageTitleUpdated pg w =
     (let w0 = meanwhile pg 0 w
      in case getPausedStatus pg of
           Inl e \<Rightarrow> (Some e, w0)
         | Inr paused \<Rightarrow>
             (let w1 = meanwhile pg 1 (w0\<lparr>songInfo := (songInfo w0)\<lparr>isPaused := paused\<rparr>\<rparr>)
              in case getProgress pg of
                   Inl e \<Rightarrow> (Some e, w1)
                 | Inr elapsed \<Rightarrow>
                     triggerCallbacks (w1\<lparr>songInfo := (songInfo w1)\<lparr>elapsedSeconds := elapsed\<rparr>\<rparr>)))"

definition onSongInfoRequest :: "page \<Rightarrow> string \<Rightarrow> world \<Rightarrow> error option \<times> world" where
  "onSongInfoRequest pg responseText w =
     andThen (handleData pg responseText w) (\<lambda>w'. triggerCallbacks (meanwhile pg 2 w'))"

text \<open>
  The main process around the handlers. index.js installs \<^verbatim>\<open>unhandled\<close> with
  \<^verbatim>\<open>console.error\<close> as logger and no dialog (\<^emph>\<open>Catch errors and log them\<close>): an
  error that leaves a handler is logged and the process goes on with the next event.
  An event comes with its page, and so with what other handlers do to the module state
  while its own handler waits. \<open>runEvents\<close> handles a list of events whose handlers do
  not overlap one another, each to its end before the next one begins; what handlers
  that do overlap make of the module state is the \<open>meanwhile\<close> of the pages.
\<close>

datatype event = PageTitleUpdated page | SongInfoRequest page string

record process =
  window :: world
  logged :: "error list"

fun handleEvent :: "event \<Rightarrow> world \<Rightarrow> error option \<times> world" where
  "handleEvent (PageTitleUpdated pg) w = onPageTitleUpdated pg w"
| "handleEvent (SongInfoRequest pg responseText) w = onSongInfoRequest pg responseText w"

definition dispatch :: "event \<Rightarrow> process \<Rightarrow> process" where
  "dispatch ev p =
     (case handleEvent ev (window p) of
        (None, w) \<Rightarrow> p\<lparr>window := w\<rparr>
      | (Some e, w) \<Rightarrow> p\<lparr>window := w, logged := logged p @ [e]\<rparr>)"

definition runEvents :: "event list \<Rightarrow> process \<Rightarrow> process" where
  "runEvents evs p = fold dispatch evs p"

section \<open>Plugin loading (index.js)\<close>

text \<open>
  A plugin backend is called with the window and its options; it acts on the window
  and returns or raises. The configuration, the file system and \<^verbatim>\<open>require\<close> are
  parameters; \<^verbatim>\<open>path.join\<close> is one too.
\<close>

type_synonym 'w backend = "'w \<Rightarrow> jsval \<Rightarrow> error option \<times> 'w"

record 'w loaderEnv =
  getEnabled :: "(string \<times> jsval) list"
  dirname :: string
  pathJoin :: "string list \<Rightarrow> string"
  pathExists :: "string \<Rightarrow> bool"
  require :: "string \<Rightarrow> error + 'w backend"

text \<open>
  The loader's state: the window, the lines of \<^verbatim>\<open>console.log\<close>, the style sheets
  injected, the window events hooked, the plugins whose backend was called, and the
  errors reported to the process.
\<close>

record 'w loaderState =
  win :: 'w
  console :: "string list"
  injected :: "string list"
  hooked :: "string list"
  activated :: "string list"
  reported :: "error list"

text \<open>
  Modelled from the spec: \<^verbatim>\<open>fileExists\<close> of \<^verbatim>\<open>plugins/utils\<close> is not among the
  sources. Following sections 4.3 and 7 of the specification, a path that does not
  exist is skipped silently, the callback runs when the path exists, and an error
  raised in it is reported to the owning process instead of reaching the loader.
\<close>

definition fileExists ::
  "(string \<Rightarrow> bool) \<Rightarrow> string \<Rightarrow> ('w loaderState \<Rightarrow> error option \<times> 'w loaderState) \<Rightarrow>
     'w loaderState \<Rightarrow> error option \<times> 'w loaderState" where
  "fileExists ex path callbackIfExists s =
     (if ex path
      then (case callbackIfExists s of
              (None, s') \<Rightarrow> (None, s')
            | (Some e, s') \<Rightarrow> (None, s'\<lparr>reported := reported s' @ [e]\<rparr>))
      else (None, s))"

text \<open>
  Modelled from the spec: \<^verbatim>\<open>injectCSS\<close> of \<^verbatim>\<open>plugins/utils\<close> is not among the
  sources either; the specification has it inject the shared style sheet into the
  page before any plugin is called.
\<close>

definition injectCSS :: "string \<Rightarrow> 'w loaderState \<Rightarrow> 'w loaderState" where
  "injectCSS file s = s\<lparr>injected := injected s @ [file]\<rparr>"

text \<open>The callback that \<^verbatim>\<open>loadPlugins\<close> passes to \<^verbatim>\<open>fileExists\<close>.\<close>

definition activate ::
  "'w loaderEnv \<Rightarrow> string \<Rightarrow> jsval \<Rightarrow> string \<Rightarrow> 'w loaderState \<Rightarrow> error option \<times> 'w loaderState" where
  "activate env plugin options pluginPath s =
     (case require env pluginPath of
        Inl e \<Rightarrow> (Some e, s)
      | Inr backend \<Rightarrow>
          (case backend (win s) options of
             (r, w) \<Rightarrow> (r, s\<lparr>win := w, activated := activated s @ [plugin]\<rparr>)))"

definition pluginPathOf :: "'w loaderEnv \<Rightarrow> string \<Rightarrow> string" where
  "pluginPathOf env plugin = pathJoin env [dirname env, ''plugins'', plugin, ''back.js'']"

text \<open>
  \<^verbatim>\<open>config.plugins.getEnabled().forEach(...)\<close>: an error that leaves the body ends the
  loop.
\<close>

fun forEachPlugin ::
  "'w loaderEnv \<Rightarrow> (string \<times> jsval) list \<Rightarrow> 'w loaderState \<Rightarrow> error option \<times> 'w loaderState" where
  "forEachPlugin env [] s = (None, s)"
| "forEachPlugin env ((plugin, options) # rest) s =
     (let s1 = s\<lparr>console := console s @ [''Loaded plugin - '' @ plugin]\<rparr>;
          pluginPath = pluginPathOf env plugin
      in case fileExists (pathExists env) pluginPath (activate env plugin options pluginPath) s1 of
           (Some e, s2) \<Rightarrow> (Some e, s2)
         | (None, s2) \<Rightarrow> forEachPlugin env rest s2)"

definition loadPlugins :: "'w loaderEnv \<Rightarrow> 'w loaderState \<Rightarrow> error option \<times> 'w loaderState" where
  "loadPlugins env s =
     (let s1 = injectCSS (pathJoin env [dirname env, ''youtube-music.css'']) s;
          s2 = s1\<lparr>hooked := hooked s1 @ [''did-finish-load'']\<rparr>
      in forEachPlugin env (getEnabled env) s2)"

text \<open>A plugin has a backend when its file exists and \<^verbatim>\<open>require\<close> loads it.\<close>

definition hasBackend :: "'w loaderEnv \<Rightarrow> string \<Rightarrow> bool" where
  "hasBackend env plugin \<longleftrightarrow>
     pathExists env (pluginPathOf env plugin) \<and>
     (case require env (pluginPathOf env plugin) of Inl e \<Rightarrow> False | Inr backend \<Rightarrow> True)"

section \<open>Notions used in the statements\<close>




text \<open>
  A handler that is not disturbed: no other handler changes the module state while it
  waits.
\<close>

definition undisturbed :: "page \<Rightarrow> bool" where
  "undisturbed pg \<longleftrightarrow> (\<forall>i w. meanwhile pg i w = w)"

text \<open>
  How many observers \<^verbatim>\<open>forEach\<close> gets to call with a snapshot: all of them when none
  raises, otherwise those up to and including the first that raises.
\<close>

definition observersReached :: "callback list \<Rightarrow> song_info \<Rightarrow> nat" where
  "observersReached cs info =
     min (length cs) (Suc (length (takeWhile (\<lambda>c. c info = None) cs)))"

text \<open>The title that a report declares: \<^verbatim>\<open>data?.videoDetails?.title\<close>.\<close>

definition declaredTitle :: "jsval \<Rightarrow> jsval" where
  "declaredTitle data = optGet (optGet data ''videoDetails'') ''title''"

text \<open>
  The snapshot that the handling of a report builds from the one it finds, once the
  title, the artist, the thumbnail address and the image are there.
\<close>

definition snapshotOf :: "jsval \<Rightarrow> jsval \<Rightarrow> jsval \<Rightarrow> jsval \<Rightarrow> nativeImage \<Rightarrow> song_info \<Rightarrow> song_info" where
  "snapshotOf data t a src img info =
     info\<lparr>title := t,
          artist := a,
          views := optGet (optGet data ''videoDetails'') ''viewCount'',
          imageSrc := src,
          songDuration := optGet (optGet data ''videoDetails'') ''lengthSeconds'',
          image_si := Some img,
          uploadDate := optGet (optGet (optGet data ''microformat'') ''microformatDataRenderer'') ''uploadDate'',
          url := optGet (optGet (optGet data ''microformat'') ''microformatDataRenderer'') ''urlCanonical''\<rparr>"

section \<open>Concrete inputs\<close>

text \<open>A listener that settles with a fixed result and leaves the shared state alone.\<close>

definition answering :: "jsval \<Rightarrow> 'st applier" where
  "answering r st = (Inr r, st)"


definition headerA2 :: jsval where
  "headerA2 = JObj [(''cancel'', JBool False),
                    (''responseHeaders'', JObj [(''a'', JArr [JStr ''2''])])]"


definition cancelTrue :: jsval where
  "cancelTrue = JObj [(''cancel'', JBool True)]"

text \<open>The page-data payload of the specification's extraction example.\<close>

definition payload :: jsval where
  "payload =
     JObj [(''videoDetails'',
            JObj [(''title'', JStr ''Song - Topic''),
                  (''author'', JStr ''Band''),
                  (''viewCount'', JNum 10),
                  (''thumbnail'', JObj [(''thumbnails'', JArr [JObj [(''url'', JStr ''a.jpg'')]])]),
                  (''lengthSeconds'', JNum 180)]),
           (''microformat'',
            JObj [(''microformatDataRenderer'',
                   JObj [(''uploadDate'', JStr ''2020-01-01''),
                         (''urlCanonical'', JStr ''https://x'')])])]"

text \<open>The same payload without a title.\<close>

definition untitled :: jsval where
  "untitled =
     JObj [(''videoDetails'',
            JObj [(''author'', JStr ''Band''),
                  (''viewCount'', JNum 10),
                  (''thumbnail'', JObj [(''thumbnails'', JArr [JObj [(''url'', JStr ''a.jpg'')]])]),
                  (''lengthSeconds'', JNum 180)]),
           (''microformat'',
            JObj [(''microformatDataRenderer'',
                   JObj [(''uploadDate'', JStr ''2020-01-01''),
                         (''urlCanonical'', JStr ''https://x'')])])]"

text \<open>
  A page that plays a song: the network serves \<^verbatim>\<open>a.jpg\<close>, answers without bytes at
  any other address and refuses what is not a string; a buffer without bytes decodes
  to the empty image; three texts parse; the serialisation is cut down to the title;
  and no other handler runs meanwhile.
\<close>

definition online :: page where
  "online =
     \<lparr>documentTitle = Inr (JStr ''Song - YouTube Music''),
      progressValue = Inr (JNum 42),
      artistText = Inr (JStr ''Band''),
      fetchBuffer = (\<lambda>src. case src of
                             JStr s \<Rightarrow> if s = ''a.jpg'' then Inr [1] else Inr []
                           | _ \<Rightarrow> Inl TypeError),
      createFromBuffer = (\<lambda>buffer. if buffer = [] then EmptyImage else Picture buffer),
      JSON_parse = (\<lambda>text. if text = ''payload'' then Inr payload
                             else if text = ''untitled'' then Inr untitled
                             else if text = ''{}'' then Inr (JObj [])
                             else Inl SyntaxError),
      JSON_stringify = (\<lambda>info. case title info of JStr t \<Rightarrow> t | _ \<Rightarrow> ''-''),
      meanwhile = (\<lambda>i w. w)\<rparr>"

text \<open>The same page without network.\<close>

definition offline :: page where
  "offline = online\<lparr>fetchBuffer := (\<lambda>src. Inl FetchError)\<rparr>"

definition quiet :: callback where
  "quiet info = None"

definition world0 :: world where
  "world0 = \<lparr>songInfo = songInfo0, callbacks = [quiet], effects = []\<rparr>"

definition process0 :: process where
  "process0 = \<lparr>window = world0, logged = []\<rparr>"

text \<open>
  Three enabled plugins: the first has no backend file, the backend of the second
  raises, the third counts its call in the window.
\<close>

definition raising :: "nat backend" where
  "raising w options = (Some PluginError, w)"

definition counting :: "nat backend" where
  "counting w options = (None, Suc w)"

definition threePlugins :: "nat loaderEnv" where
  "threePlugins =
     \<lparr>getEnabled = [(''front-only'', JObj []), (''broken'', JObj []), (''counter'', JObj [])],
      dirname = ''/app'',
      pathJoin = (\<lambda>parts. case parts of [] \<Rightarrow> []
                          | part # parts' \<Rightarrow> foldl (\<lambda>path seg. path @ ''/'' @ seg) part parts'),
      pathExists = (\<lambda>path. path \<noteq> ''/app/plugins/front-only/back.js''),
      require = (\<lambda>path. if path = ''/app/plugins/broken/back.js'' then Inr raising
                         else Inr counting)\<rparr>"

definition loader0 :: "nat loaderState" where
  "loader0 = \<lparr>win = 0, console = [], injected = [], hooked = [], activated = [], reported = []\<rparr>"

section \<open>Name cleanup: what one application does\<close>

lemma endsWith_append: "endsWith s suf \<longleftrightarrow> (\<exists>r. s = r @ suf)"
proof
  assume "endsWith s suf"
  then have "s = take (length s - length suf) s @ suf"
    by (metis append_take_drop_id endsWith_def)
  then show "\<exists>r. s = r @ suf" ..
next
  assume "\<exists>r. s = r @ suf"
  then show "endsWith s suf" by (auto simp: endsWith_def)
qed

lemma strip_suffix: "suf \<noteq> [] \<Longrightarrow> slice (r @ suf) 0 (- int (length suf)) = r"
  by (simp add: slice_0_neg)

lemma stripFirst_none:
  "\<forall>suf \<in> set sufs. \<not> endsWith s suf \<Longrightarrow> stripFirst s sufs = s"
  by (induction sufs) auto

lemma stripFirst_some:
  assumes "\<exists>suf \<in> set sufs. endsWith s suf" and "[] \<notin> set sufs"
  shows "\<exists>suf \<in> set sufs. s = stripFirst s sufs @ suf"
  using assms
proof (induction sufs)
  case Nil
  then show ?case by simp
next
  case (Cons a sufs)
  show ?case
  proof (cases "endsWith s a")
    case True
    then obtain r where "s = r @ a" unfolding endsWith_append ..
    moreover from Cons.prems have "a \<noteq> []" by auto
    ultimately have "stripFirst s (a # sufs) = r" using True by (simp add: strip_suffix)
    with \<open>s = r @ a\<close> show ?thesis by auto
  next
    case False
    with Cons show ?thesis by auto
  qed
qed

lemma suffixes_nonempty: "[] \<notin> set suffixesToRemove"
  by (simp add: suffixesToRemove_def)

lemma stripFirst_Nil: "stripFirst [] suffixesToRemove = []"
  by (simp add: suffixesToRemove_def endsWith_def)

lemma cleanupName_JStr: "cleanupName (JStr s) = Inr (JStr (stripFirst s suffixesToRemove))"
  by (simp add: cleanupName_def stripFirst_Nil)

lemma cleanupName_falsy: "\<not> truthy v \<Longrightarrow> cleanupName v = Inr v"
  by (simp add: cleanupName_def)

lemma stripFirst_fixed_iff:
  assumes "[] \<notin> set sufs"
  shows "stripFirst s sufs = s \<longleftrightarrow> (\<forall>suf \<in> set sufs. \<not> endsWith s suf)"
proof
  assume fixed: "stripFirst s sufs = s"
  show "\<forall>suf \<in> set sufs. \<not> endsWith s suf"
  proof (rule ccontr)
    assume "\<not> (\<forall>suf \<in> set sufs. \<not> endsWith s suf)"
    then have "\<exists>suf \<in> set sufs. endsWith s suf" by blast
    from stripFirst_some [OF this assms] obtain suf
      where "suf \<in> set sufs" "s = stripFirst s sufs @ suf" by blast
    with fixed have "s = s @ suf" by simp
    then have "suf = []" by simp
    with \<open>suf \<in> set sufs\<close> assms show False by simp
  qed
next
  assume "\<forall>suf \<in> set sufs. \<not> endsWith s suf"
  then show "stripFirst s sufs = s" by (rule stripFirst_none)
qed

text \<open>
  Claim C3, as the code has it. Cleaning a name twice gives the same as cleaning it
  once exactly when the once-cleaned name ends with none of the listed suffixes; one
  application removes one suffix only, so a name that still ends with a listed suffix
  is shortened again.
\<close>

theorem cleanupName_twice:
  assumes "cleanupName (JStr s) = Inr (JStr r)"
  shows "cleanupName (JStr r) = Inr (JStr r) \<longleftrightarrow>
         (\<forall>suf \<in> set suffixesToRemove. \<not> endsWith r suf)"
  by (simp add: cleanupName_JStr stripFirst_fixed_iff [OF suffixes_nonempty])

text \<open>The equivalence at the name \<^verbatim>\<open>Band - Topic\<close>, cleaned to \<^verbatim>\<open>Band\<close>.\<close>

theorem cleanupName_twice_witness:
  "cleanupName (JStr ''Band - Topic'') = Inr (JStr ''Band'') \<and>
   cleanupName (JStr ''Band'') = Inr (JStr ''Band'')"
proof -
  have first: "cleanupName (JStr ''Band - Topic'') = Inr (JStr ''Band'')"
    by (simp add: cleanupName_def suffixesToRemove_def endsWith_def slice_def)
  have "\<forall>suf \<in> set suffixesToRemove. \<not> endsWith ''Band'' suf"
    by (simp add: suffixesToRemove_def endsWith_def)
  with cleanupName_twice [OF first] first show ?thesis by simp
qed

text \<open>
  Idempotence as claim C3 states it fails: \<^verbatim>\<open>ArtistVEVO - Topic\<close> is cleaned to
  \<^verbatim>\<open>ArtistVEVO\<close>, and that to \<^verbatim>\<open>Artist\<close>.
\<close>

theorem cleanupName_idempotent_counterexample:
  "cleanupName (JStr ''ArtistVEVO - Topic'') = Inr (JStr ''ArtistVEVO'') \<and>
   cleanupName (JStr ''ArtistVEVO'') = Inr (JStr ''Artist'')"
  by (simp add: cleanupName_def suffixesToRemove_def endsWith_def slice_def)

text \<open>
  Claim C4, as the code has it. A name that ends with none of the listed suffixes is
  returned unchanged; a name that ends with one is returned without exactly that
  suffix, whatever precedes it being kept. For \<^verbatim>\<open>Artist VEVO VEVO\<close> the result keeps
  the blank before the removed suffix.
\<close>

theorem cleanupName_one_suffix:
  "((\<forall>suf \<in> set suffixesToRemove. \<not> endsWith s suf) \<longrightarrow>
      cleanupName (JStr s) = Inr (JStr s)) \<and>
   ((\<exists>suf \<in> set suffixesToRemove. endsWith s suf) \<longrightarrow>
      (\<exists>suf \<in> set suffixesToRemove. \<exists>r. cleanupName (JStr s) = Inr (JStr r) \<and> s = r @ suf)) \<and>
   cleanupName (JStr ''Artist VEVO VEVO'') = Inr (JStr ''Artist VEVO '')"
proof (intro conjI impI)
  assume "\<forall>suf \<in> set suffixesToRemove. \<not> endsWith s suf"
  then show "cleanupName (JStr s) = Inr (JStr s)"
    by (simp add: cleanupName_JStr stripFirst_none)
next
  assume "\<exists>suf \<in> set suffixesToRemove. endsWith s suf"
  from stripFirst_some [OF this suffixes_nonempty]
  show "\<exists>suf \<in> set suffixesToRemove. \<exists>r. cleanupName (JStr s) = Inr (JStr r) \<and> s = r @ suf"
    by (auto simp: cleanupName_JStr)
next
  show "cleanupName (JStr ''Artist VEVO VEVO'') = Inr (JStr ''Artist VEVO '')"
    by (simp add: cleanupName_def suffixesToRemove_def endsWith_def slice_def)
qed

text \<open>Both cases at concrete names: \<^verbatim>\<open>Band\<close> is kept, \<^verbatim>\<open>Band - Topic\<close> loses a suffix.\<close>

theorem cleanupName_one_suffix_witness:
  "\<not> list_ex (endsWith ''Band'') suffixesToRemove \<and>
   cleanupName (JStr ''Band'') = Inr (JStr ''Band'') \<and>
   list_ex (endsWith ''Band - Topic'') suffixesToRemove \<and>
   (\<exists>suf \<in> set suffixesToRemove. \<exists>r.
      cleanupName (JStr ''Band - Topic'') = Inr (JStr r) \<and> ''Band - Topic'' = r @ suf)"
proof -
  have a: "\<not> list_ex (endsWith ''Band'') suffixesToRemove"
    by (simp add: suffixesToRemove_def endsWith_def)
  have b: "list_ex (endsWith ''Band - Topic'') suffixesToRemove"
    by (simp add: suffixesToRemove_def endsWith_def)
  from a have a': "\<forall>suf \<in> set suffixesToRemove. \<not> endsWith ''Band'' suf"
    by (simp add: list_ex_iff)
  from b have b': "\<exists>suf \<in> set suffixesToRemove. endsWith ''Band - Topic'' suf"
    by (simp add: list_ex_iff)
  from a' b' cleanupName_one_suffix [of "''Band''"] cleanupName_one_suffix [of "''Band - Topic''"]
  have "cleanupName (JStr ''Band'') = Inr (JStr ''Band'') \<and>
    (\<exists>suf \<in> set suffixesToRemove. \<exists>r.
      cleanupName (JStr ''Band - Topic'') = Inr (JStr r) \<and> ''Band - Topic'' = r @ suf)"
    by blast
  with a b show ?thesis by blast
qed

text \<open>
  The example of claim C4 fails as stated: the result for \<^verbatim>\<open>Artist VEVO VEVO\<close> is not
  \<^verbatim>\<open>Artist VEVO\<close>.
\<close>

theorem cleanupName_example_counterexample:
  "cleanupName (JStr ''Artist VEVO VEVO'') \<noteq> Inr (JStr ''Artist VEVO'')"
  by (simp add: cleanupName_def suffixesToRemove_def endsWith_def slice_def)

section \<open>The resolver\<close>


lemma upt_step: "[i..<Suc (i + n)] = i # [Suc i..<Suc (i + n)]"
  using upt_conv_Cons [of i "Suc (i + n)"] by (simp del: upt_Suc)

lemma upt_step0: "[0..<Suc n] = 0 # [Suc 0..<Suc n]"
  using upt_conv_Cons [of 0 "Suc n"] by (simp del: upt_Suc)

text \<open>
  Once the accumulator is a promise, it stays one, and every remaining listener is
  applied.
\<close>

lemma reduce_promised:
  "\<exists>p' st'. reduceListeners ls i (Promised p) st tr = (Promised p', st', tr @ [i..<i + length ls])"
proof (induction ls arbitrary: i p st tr)
  case Nil
  show ?case by simp
next
  case (Cons l ls)
  obtain r st1 where l: "l st = (r, st1)" by (cases "l st")
  show ?case
  proof (cases r)
    case (Inl e)
    from Cons.IH [of "Suc i" "Rejected e" st1 "tr @ [i]"] l Inl
    show ?thesis by (auto simp: upt_step simp del: upt_Suc)
  next
    case (Inr v)
    from Cons.IH [of "Suc i" "Fulfilled (JObj (assign [] (ownEnumerable v)))" st1 "tr @ [i]"] l Inr
    show ?thesis by (auto simp: upt_step simp del: upt_Suc)
  qed
qed

lemma resolver_invokes_all: "invokedBy ls st = [0..<length ls]"
proof (cases ls)
  case Nil
  then show ?thesis by (simp add: invokedBy_def resolver_def)
next
  case (Cons l rest)
  obtain r st1 where l: "l st = (r, st1)" by (cases "l st")
  show ?thesis
  proof (cases r)
    case (Inl e)
    from reduce_promised [of rest 1 "Rejected e" st1 "[0]"] Cons l Inl
    show ?thesis
      by (auto simp: invokedBy_def resolver_def ownProp_def upt_step0 simp del: upt_Suc)
  next
    case (Inr v)
    from reduce_promised [of rest 1 "Fulfilled (JObj (assign [(''cancel'', JBool False)] (ownEnumerable v)))" st1 "[0]"] Cons l Inr
    show ?thesis
      by (auto simp: invokedBy_def resolver_def ownProp_def upt_step0 simp del: upt_Suc)
  qed
qed









text \<open>
  Claim C2 at a failing input: the first listener returns \<^verbatim>\<open>{cancel: true}\<close>, the
  second sets header \<^verbatim>\<open>a\<close>. The accumulator that the second call of the callback
  tests is a promise, whose \<^verbatim>\<open>cancel\<close> is undefined: the second listener is applied
  (position 1 is in the list of calls) and the response is its result, with
  \<^verbatim>\<open>cancel\<close> false.
\<close>

theorem resolver_cancel_not_honoured:
  "resolver [answering cancelTrue, answering headerA2] () =
     (Promised (Fulfilled (JObj [(''cancel'', JBool False),
                                 (''responseHeaders'', JObj [(''a'', JArr [JStr ''2''])])])),
      (), [0, 1])"
  by (simp add: resolver_def answering_def cancelTrue_def headerA2_def assign_def ownProp_def)


section \<open>Cover image\<close>

lemma lastIndexOf_greatest:
  assumes "lastIndexOf s p = int i" and "occursAt s p j"
  shows "j \<le> i"
proof -
  let ?cands = "rev [0..<Suc (length s)]"
  let ?hits = "filter (occursAt s p) ?cands"
  from assms(1) obtain rest where hits: "?hits = i # rest"
    unfolding lastIndexOf_def by (cases ?hits) auto
  have "sorted_wrt (\<lambda>x y. y \<le> x) ?cands"
    unfolding sorted_wrt_rev by (rule sorted_upt)
  then have "sorted_wrt (\<lambda>x y. y \<le> x) ?hits" by (rule sorted_wrt_filter)
  then have below: "\<forall>x \<in> set rest. x \<le> i" unfolding hits by simp
  from assms(2) have "j \<le> length s" by (simp add: occursAt_def)
  then have "j \<in> set ?cands" unfolding set_rev by (simp del: upt_Suc)
  with assms(2) have "j \<in> set ?hits" unfolding set_filter by blast
  then have "j = i \<or> j \<in> set rest" unfolding hits by simp
  with below show ?thesis by auto
qed

lemma getImage_jpg:
  assumes "endsWith s ''.jpg''"
  shows "getImage pg (JStr s) =
           (case fetchBuffer pg (JStr s) of
              Inl e \<Rightarrow> (Inl e, [JStr s])
            | Inr buffer \<Rightarrow> (Inr (createFromBuffer pg buffer), [JStr s]))"
  using assms by (subst getImage.simps) (simp add: Let_def split: sum.splits)

text \<open>
  Claim C8, as the code has it. For every source string \<^verbatim>\<open>getImage\<close> fetches once or
  twice. It fetches a second time exactly when the first fetch succeeded, the decoded
  image is empty, the source does not end with \<^verbatim>\<open>.jpg\<close> and contains \<^verbatim>\<open>.jpg\<close>; the
  second source is the first one cut right after its last \<^verbatim>\<open>.jpg\<close>. An image that
  fails to decode is returned as the empty image. A fetch that fails, the first or the
  second, is not caught: the call rejects with that error.
\<close>

theorem getImage_one_retry:
  "getImage pg (JStr s) =
     (case fetchBuffer pg (JStr s) of
        Inl e \<Rightarrow> (Inl e, [JStr s])
      | Inr buffer \<Rightarrow>
          if isEmpty (createFromBuffer pg buffer) \<and> \<not> endsWith s ''.jpg'' \<and> includesStr s ''.jpg''
          then (case fetchBuffer pg (JStr (truncateJpg s)) of
                  Inl e \<Rightarrow> (Inl e, [JStr s, JStr (truncateJpg s)])
                | Inr buffer' \<Rightarrow>
                    (Inr (createFromBuffer pg buffer'), [JStr s, JStr (truncateJpg s)]))
          else (Inr (createFromBuffer pg buffer), [JStr s])) \<and>
   length (snd (getImage pg (JStr s))) \<le> 2 \<and>
   (includesStr s ''.jpg'' \<longrightarrow>
      (\<exists>i. occursAt s ''.jpg'' i \<and> (\<forall>j. occursAt s ''.jpg'' j \<longrightarrow> j \<le> i) \<and>
           truncateJpg s = take (i + 4) s))"
proof -
  have closed: "getImage pg (JStr s) =
     (case fetchBuffer pg (JStr s) of
        Inl e \<Rightarrow> (Inl e, [JStr s])
      | Inr buffer \<Rightarrow>
          if isEmpty (createFromBuffer pg buffer) \<and> \<not> endsWith s ''.jpg'' \<and> includesStr s ''.jpg''
          then (case fetchBuffer pg (JStr (truncateJpg s)) of
                  Inl e \<Rightarrow> (Inl e, [JStr s, JStr (truncateJpg s)])
                | Inr buffer' \<Rightarrow>
                    (Inr (createFromBuffer pg buffer'), [JStr s, JStr (truncateJpg s)]))
          else (Inr (createFromBuffer pg buffer), [JStr s]))"
    by (subst getImage.simps)
       (simp add: Let_def getImage_jpg truncateJpg_endsWith split: sum.splits)
  have len: "length (snd (getImage pg (JStr s))) \<le> 2"
    unfolding closed by (simp split: sum.splits)
  have cut: "\<exists>i. occursAt s ''.jpg'' i \<and> (\<forall>j. occursAt s ''.jpg'' j \<longrightarrow> j \<le> i) \<and>
           truncateJpg s = take (i + 4) s" if "includesStr s ''.jpg''"
  proof -
    from lastIndexOf_occurs [OF that] obtain i
      where i: "lastIndexOf s ''.jpg'' = int i" "occursAt s ''.jpg'' i" by blast
    from i lastIndexOf_greatest [OF i(1)] truncateJpg_take [OF i] show ?thesis by blast
  qed
  from closed len cut show ?thesis by blast
qed

text \<open>
  A thumbnail whose name hides the \<^verbatim>\<open>.jpg\<close>: the first fetch decodes to the empty
  image, the second one fetches \<^verbatim>\<open>a.jpg\<close> and gives the picture.
\<close>

theorem getImage_one_retry_witness:
  "includesStr ''a.jpg.webp'' ''.jpg'' \<and>
   truncateJpg ''a.jpg.webp'' = ''a.jpg'' \<and>
   getImage online (JStr ''a.jpg.webp'') =
     (Inr (Picture [1]), [JStr ''a.jpg.webp'', JStr ''a.jpg''])"
proof -
  have inc: "includesStr ''a.jpg.webp'' ''.jpg''" by code_simp
  have cut: "truncateJpg ''a.jpg.webp'' = ''a.jpg''" by code_simp
  have nojpg: "\<not> endsWith ''a.jpg.webp'' ''.jpg''" by code_simp
  from getImage_one_retry [of online "''a.jpg.webp''"]
  have "getImage online (JStr ''a.jpg.webp'') =
     (Inr (Picture [1]), [JStr ''a.jpg.webp'', JStr ''a.jpg''])"
    by (simp add: inc cut nojpg online_def isEmpty_def)
  with inc cut show ?thesis by simp
qed

text \<open>
  Claim C8 fails as stated where it has \<^verbatim>\<open>getImage\<close> never raise: without network
  the call rejects with the error of the fetch and returns no image.
\<close>

theorem getImage_fetch_failure_counterexample:
  "getImage offline (JStr ''a.jpg'') = (Inl FetchError, [JStr ''a.jpg''])"
  by (subst getImage.simps) (simp add: offline_def)

section \<open>Publication of the song information\<close>

lemma upt_shift: "i # [Suc i..<Suc (i + n)] = [i..<Suc (i + n)]"
  using upt_conv_Cons [of i "Suc (i + n)"] by (simp del: upt_Suc)

lemma forEachCallback_effects:
  "snd (forEachCallback cs i info sofar) =
     sofar @ map (\<lambda>j. Called j info) [i..<i + observersReached cs info]"
proof (induction cs arbitrary: i sofar)
  case Nil
  show ?case by (simp add: observersReached_def)
next
  case (Cons c cs)
  show ?case
  proof (cases "c info")
    case (Some e)
    then have "observersReached (c # cs) info = 1" by (simp add: observersReached_def)
    with Some show ?thesis by simp
  next
    case None
    then have r: "observersReached (c # cs) info = Suc (observersReached cs info)"
      by (simp add: observersReached_def)
    have "[i..<i + Suc (observersReached cs info)] =
            i # [Suc i..<Suc i + observersReached cs info]"
      using upt_shift [of i "observersReached cs info"] by simp
    with None r Cons.IH [of "Suc i" "sofar @ [Called i info]"] show ?thesis by simp
  qed
qed

lemma forEachCallback_returns:
  "fst (forEachCallback cs i info sofar) = None \<longleftrightarrow> list_all (\<lambda>c. c info = None) cs"
  by (induction cs arbitrary: i sofar) (auto split: option.splits)

lemma triggerCallbacks_keeps:
  "songInfo (snd (triggerCallbacks w)) = songInfo w"
  "callbacks (snd (triggerCallbacks w)) = callbacks w"
  by (simp_all add: triggerCallbacks_def split: prod.splits)

lemma triggerCallbacks_effects:
  "effects (snd (triggerCallbacks w)) =
     effects w @ map (\<lambda>i. Called i (songInfo w)) [0..<observersReached (callbacks w) (songInfo w)]"
  using forEachCallback_effects [of "callbacks w" 0 "songInfo w" "effects w"]
  by (cases "forEachCallback (callbacks w) 0 (songInfo w) (effects w)")
     (simp add: triggerCallbacks_def)

lemma triggerCallbacks_returns:
  "fst (triggerCallbacks w) = None \<longleftrightarrow>
     list_all (\<lambda>c. c (songInfo w) = None) (callbacks w)"
  using forEachCallback_returns [of "callbacks w" 0 "songInfo w" "effects w"]
  by (cases "forEachCallback (callbacks w) 0 (songInfo w) (effects w)")
     (simp add: triggerCallbacks_def)



lemma undisturbedD: "undisturbed pg \<Longrightarrow> meanwhile pg i w = w"
  by (simp add: undisturbed_def)

lemmas step_defs = setTitle_def setArtist_def setViews_def setImageSrc_def
  setSongDuration_def setImage_def setMicroformat_def sendUpdate_def

lemma handleData_done:
  assumes "undisturbed pg" and "fst (handleData pg responseText w) = None"
  shows "effects (snd (handleData pg responseText w)) =
           effects w @ [Sent ''update-song-info''
                          (JSON_stringify pg (songInfo (snd (handleData pg responseText w))))]"
    and "callbacks (snd (handleData pg responseText w)) = callbacks w"
  using assms(2)
  by (auto simp: handleData_def andThen_def step_defs Let_def undisturbedD [OF assms(1)]
      split: sum.splits prod.splits option.splits)

lemma handleData_title:
  assumes "undisturbed pg"
    and "JSON_parse pg responseText = Inr data"
    and "cleanupName (declaredTitle data) = Inr t"
  shows "title (songInfo (snd (handleData pg responseText w))) = t"
  using assms(2,3)
  by (auto simp: handleData_def andThen_def step_defs Let_def declaredTitle_def
      undisturbedD [OF assms(1)] split: sum.splits prod.splits option.splits)

lemma handleData_success:
  assumes "undisturbed pg"
    and "JSON_parse pg responseText = Inr data"
    and "cleanupName (declaredTitle data) = Inr t"
    and "resolveArtist pg data = Inr a"
    and "lastThumbnailUrl data = Inr src"
    and "fst (getImage pg src) = Inr img"
  shows "fst (handleData pg responseText w) = None"
    and "songInfo (snd (handleData pg responseText w)) = snapshotOf data t a src img (songInfo w)"
  using assms(2-)
  by (simp_all add: handleData_def andThen_def step_defs Let_def declaredTitle_def
      snapshotOf_def undisturbedD [OF assms(1)])

lemma onSongInfoRequest_cases:
  "onSongInfoRequest pg responseText w =
     (if fst (handleData pg responseText w) = None
      then triggerCallbacks (meanwhile pg 2 (snd (handleData pg responseText w)))
      else handleData pg responseText w)"
  by (cases "handleData pg responseText w")
     (auto simp: onSongInfoRequest_def andThen_def split: option.splits)

lemma onSongInfoRequest_published:
  assumes "undisturbed pg" and "fst (handleData pg responseText w) = None"
  shows "songInfo (snd (onSongInfoRequest pg responseText w)) =
           songInfo (snd (handleData pg responseText w))"
    and "effects (snd (onSongInfoRequest pg responseText w)) =
           effects w @
           Sent ''update-song-info''
             (JSON_stringify pg (songInfo (snd (handleData pg responseText w)))) #
           map (\<lambda>i. Called i (songInfo (snd (handleData pg responseText w))))
             [0..<observersReached (callbacks w) (songInfo (snd (handleData pg responseText w)))]"
    and "fst (onSongInfoRequest pg responseText w) = None \<longleftrightarrow>
           list_all (\<lambda>c. c (songInfo (snd (handleData pg responseText w))) = None) (callbacks w)"
proof -
  let ?w1 = "snd (handleData pg responseText w)"
  have req: "onSongInfoRequest pg responseText w = triggerCallbacks ?w1"
    using assms(2) by (simp add: onSongInfoRequest_cases undisturbedD [OF assms(1)])
  show "songInfo (snd (onSongInfoRequest pg responseText w)) = songInfo ?w1"
    unfolding req by (rule triggerCallbacks_keeps)
  show "effects (snd (onSongInfoRequest pg responseText w)) =
           effects w @ Sent ''update-song-info'' (JSON_stringify pg (songInfo ?w1)) #
           map (\<lambda>i. Called i (songInfo ?w1)) [0..<observersReached (callbacks w) (songInfo ?w1)]"
    unfolding req triggerCallbacks_effects handleData_done [OF assms] by simp
  show "fst (onSongInfoRequest pg responseText w) = None \<longleftrightarrow>
           list_all (\<lambda>c. c (songInfo ?w1) = None) (callbacks w)"
    unfolding req triggerCallbacks_returns handleData_done(2) [OF assms] ..
qed






text \<open>
  Claim C6. When the payload of a report does not parse, its handler ends with that
  error and the module state is what it was: no field of the snapshot has changed, no
  observer was called, nothing was sent. The error is logged by the process, which
  handles the events that follow from the unchanged state.
\<close>

theorem malformed_payload_recoverable:
  assumes "JSON_parse pg responseText = Inl e"
  shows "onSongInfoRequest pg responseText w = (Some e, w) \<and>
         dispatch (SongInfoRequest pg responseText) p = p\<lparr>logged := logged p @ [e]\<rparr> \<and>
         runEvents (SongInfoRequest pg responseText # evs) p =
           runEvents evs (p\<lparr>logged := logged p @ [e]\<rparr>)"
proof -
  have h: "onSongInfoRequest pg responseText w = (Some e, w)" for w
    using assms by (simp add: onSongInfoRequest_def handleData_def andThen_def)
  then have d: "dispatch (SongInfoRequest pg responseText) p = p\<lparr>logged := logged p @ [e]\<rparr>" for p
    by (simp add: dispatch_def)
  then have "runEvents (SongInfoRequest pg responseText # evs) p =
           runEvents evs (p\<lparr>logged := logged p @ [e]\<rparr>)"
    by (simp add: runEvents_def)
  with h d show ?thesis by blast
qed

text \<open>
  A text that does not parse, followed by the report of the specification's example:
  the first is logged, the second is published as if the first had not arrived.
\<close>

theorem malformed_payload_recoverable_witness:
  "JSON_parse online ''not json'' = Inl SyntaxError \<and>
   onSongInfoRequest online ''not json'' world0 = (Some SyntaxError, world0) \<and>
   runEvents [SongInfoRequest online ''not json'', SongInfoRequest online ''payload''] process0 =
     runEvents [SongInfoRequest online ''payload''] (process0\<lparr>logged := [SyntaxError]\<rparr>)"
proof -
  have bad: "JSON_parse online ''not json'' = Inl SyntaxError"
    by (simp add: online_def)
  from malformed_payload_recoverable [OF bad, of world0 process0 "[SongInfoRequest online ''payload'']"] bad
  show ?thesis by (simp add: process0_def)
qed

text \<open>
  Claim C10, as the code has it. \<^verbatim>\<open>cleanupName\<close> returns \<^verbatim>\<open>null\<close>, \<^verbatim>\<open>undefined\<close>
  and the empty string as they are, without raising. So for a report whose title is
  missing (or any other falsy value) the statement that assigns the title does not
  raise and makes that value the title of the snapshot. Whether the report is
  published is decided by the rest of its handling: when the artist, the address of
  the last thumbnail and the image are obtained and no other handler disturbs this
  one, the handler sends the serialised snapshot and then calls the observers with
  it, its title being that value and its other fields those of the report; the
  handler ends without error exactly when no observer raises.
\<close>

theorem missing_title_published:
  "cleanupName JNull = Inr JNull \<and>
   cleanupName JUndefined = Inr JUndefined \<and>
   cleanupName (JStr []) = Inr (JStr []) \<and>
   (JSON_parse pg responseText = Inr data \<and> \<not> truthy (declaredTitle data) \<longrightarrow>
      setTitle data w = (None, w\<lparr>songInfo := (songInfo w)\<lparr>title := declaredTitle data\<rparr>\<rparr>) \<and>
      (undisturbed pg \<longrightarrow>
         title (songInfo (snd (handleData pg responseText w))) = declaredTitle data) \<and>
      (undisturbed pg \<and> resolveArtist pg data = Inr a \<and> lastThumbnailUrl data = Inr src \<and>
       fst (getImage pg src) = Inr img \<longrightarrow>
         title (snapshotOf data (declaredTitle data) a src img (songInfo w)) = declaredTitle data \<and>
         songInfo (snd (onSongInfoRequest pg responseText w)) =
           snapshotOf data (declaredTitle data) a src img (songInfo w) \<and>
         effects (snd (onSongInfoRequest pg responseText w)) =
           effects w @
           Sent ''update-song-info''
             (JSON_stringify pg (snapshotOf data (declaredTitle data) a src img (songInfo w))) #
           map (\<lambda>i. Called i (snapshotOf data (declaredTitle data) a src img (songInfo w)))
             [0..<observersReached (callbacks w)
                    (snapshotOf data (declaredTitle data) a src img (songInfo w))] \<and>
         (fst (onSongInfoRequest pg responseText w) = None) =
           list_all (\<lambda>c. c (snapshotOf data (declaredTitle data) a src img (songInfo w)) = None)
             (callbacks w)))"
proof (intro conjI impI)
  show "cleanupName JNull = Inr JNull" "cleanupName JUndefined = Inr JUndefined"
    "cleanupName (JStr []) = Inr (JStr [])"
    by (simp_all add: cleanupName_falsy)
next
  let ?t = "declaredTitle data"
  assume a: "JSON_parse pg responseText = Inr data \<and> \<not> truthy ?t"
  then have c: "cleanupName ?t = Inr ?t" by (simp add: cleanupName_falsy)
  then show "setTitle data w = (None, w\<lparr>songInfo := (songInfo w)\<lparr>title := ?t\<rparr>\<rparr>)"
    by (simp add: setTitle_def declaredTitle_def)
  {
    assume "undisturbed pg"
    with a c show "title (songInfo (snd (handleData pg responseText w))) = ?t"
      by (simp add: handleData_title)
  }
  let ?info = "snapshotOf data ?t a src img (songInfo w)"
  assume b: "undisturbed pg \<and> resolveArtist pg data = Inr a \<and> lastThumbnailUrl data = Inr src \<and>
       fst (getImage pg src) = Inr img"
  then have und: "undisturbed pg" by simp
  from a b c have ok: "fst (handleData pg responseText w) = None"
    and info: "songInfo (snd (handleData pg responseText w)) = ?info"
    by (simp_all add: handleData_success)
  show "title ?info = ?t" by (simp add: snapshotOf_def)
  show "songInfo (snd (onSongInfoRequest pg responseText w)) = ?info"
    using onSongInfoRequest_published(1) [OF und ok] info by simp
  show "effects (snd (onSongInfoRequest pg responseText w)) =
           effects w @ Sent ''update-song-info'' (JSON_stringify pg ?info) #
           map (\<lambda>i. Called i ?info) [0..<observersReached (callbacks w) ?info]"
    using onSongInfoRequest_published(2) [OF und ok] info by simp
  show "(fst (onSongInfoRequest pg responseText w) = None) =
           list_all (\<lambda>c. c ?info = None) (callbacks w)"
    using onSongInfoRequest_published(3) [OF und ok] info by simp
qed

text \<open>
  The example payload without its title: the handling succeeds, one message is sent
  and then the observer is called, with a snapshot whose title is \<^verbatim>\<open>undefined\<close>.
\<close>

theorem missing_title_published_witness:
  "JSON_parse online ''untitled'' = Inr untitled \<and>
   declaredTitle untitled = JUndefined \<and>
   undisturbed online \<and>
   resolveArtist online untitled = Inr (JStr ''Band'') \<and>
   lastThumbnailUrl untitled = Inr (JStr ''a.jpg'') \<and>
   fst (getImage online (JStr ''a.jpg'')) = Inr (Picture [1]) \<and>
   title (songInfo (snd (onSongInfoRequest online ''untitled'' world0))) = JUndefined \<and>
   effects (snd (onSongInfoRequest online ''untitled'' world0)) =
     [Sent ''update-song-info'' ''-'',
      Called 0 (snapshotOf untitled JUndefined (JStr ''Band'') (JStr ''a.jpg'') (Picture [1]) songInfo0)] \<and>
   fst (onSongInfoRequest online ''untitled'' world0) = None"
proof -
  have p: "JSON_parse online ''untitled'' = Inr untitled" by (simp add: online_def)
  have u: "declaredTitle untitled = JUndefined" by code_simp
  have und: "undisturbed online" by (simp add: undisturbed_def online_def)
  have a: "resolveArtist online untitled = Inr (JStr ''Band'')" by code_simp
  have s: "lastThumbnailUrl untitled = Inr (JStr ''a.jpg'')" by code_simp
  have i: "fst (getImage online (JStr ''a.jpg'')) = Inr (Picture [1])" by code_simp
  have one: "observersReached (callbacks world0) info = Suc 0" for info
    by (simp add: observersReached_def world0_def quiet_def)
  have str: "JSON_stringify online (snapshotOf untitled JUndefined a src img info) = ''-''"
    for a src img info
    by (simp add: online_def snapshotOf_def)
  have all: "list_all (\<lambda>c. c info = None) (callbacks world0)" for info
    by (simp add: world0_def quiet_def)
  have w: "effects world0 = []" "songInfo world0 = songInfo0"
    by (simp_all add: world0_def)
  have tt: "title (snapshotOf untitled JUndefined a src img info) = JUndefined" for a src img info
    by (simp add: snapshotOf_def)
  from missing_title_published [of online "''untitled''" untitled world0 "JStr ''Band''"
      "JStr ''a.jpg''" "Picture [1]"] p u und a s i
  have "title (songInfo (snd (onSongInfoRequest online ''untitled'' world0))) = JUndefined"
    and "effects (snd (onSongInfoRequest online ''untitled'' world0)) =
     [Sent ''update-song-info'' ''-'',
      Called 0 (snapshotOf untitled JUndefined (JStr ''Band'') (JStr ''a.jpg'') (Picture [1]) songInfo0)]"
    and "fst (onSongInfoRequest online ''untitled'' world0) = None"
    by (simp_all add: one str all w tt)
  with p u und a s i show ?thesis by simp
qed

text \<open>
  Claim C10 fails as stated where it has every report without title published: the
  report \<^verbatim>\<open>{}\<close> has no title and no thumbnail either, so there is no address to
  fetch the image from; its handler ends with an error after the title has become
  \<^verbatim>\<open>undefined\<close>, and it has neither sent a message nor called an observer.
\<close>

theorem missing_title_counterexample:
  "JSON_parse online ''{}'' = Inr (JObj []) \<and>
   declaredTitle (JObj []) = JUndefined \<and>
   fst (onSongInfoRequest online ''{}'' world0) = Some TypeError \<and>
   title (songInfo (snd (onSongInfoRequest online ''{}'' world0))) = JUndefined \<and>
   effects (snd (onSongInfoRequest online ''{}'' world0)) = []"
  by code_simp

section \<open>The content-security-policy listener\<close>

lemma ownProp_filter_out: "\<not> P k \<Longrightarrow> ownProp (filter (\<lambda>kv. P (fst kv)) kvs) k = JUndefined"
proof -
  assume "\<not> P k"
  then have "k \<notin> fst ` set (filter (\<lambda>kv. P (fst kv)) kvs)" by auto
  then have "map_of (filter (\<lambda>kv. P (fst kv)) kvs) k = None"
    by (simp add: map_of_eq_None_iff)
  then show ?thesis by (simp add: ownProp_def)
qed

lemma ownProp_filter_in: "P k \<Longrightarrow> ownProp (filter (\<lambda>kv. P (fst kv)) kvs) k = ownProp kvs k"
  by (induction kvs) (auto simp: ownProp_def)

text \<open>
  Claim C7, as the code has it. The listener looks the two header names up exactly as
  written, in lower case. When neither
  \<^verbatim>\<open>content-security-policy-report-only\<close> nor \<^verbatim>\<open>content-security-policy\<close> has a
  truthy value in the header object (the values that Electron delivers are arrays,
  which are truthy, so this is: when neither name is a key), it answers
  \<^verbatim>\<open>{cancel: false}\<close> and leaves the headers alone. Otherwise it deletes both
  names from the header object and answers with \<^verbatim>\<open>cancel\<close> false and these
  headers, in which every other header is as before.
\<close>

theorem cspListener_exact_names:
  "(\<not> truthy (ownProp kvs ''content-security-policy-report-only'') \<and>
    \<not> truthy (ownProp kvs ''content-security-policy'') \<longrightarrow>
      cspListener \<lparr>responseHeaders = JObj kvs\<rparr> =
        (Inr (JObj [(''cancel'', JBool False)]), \<lparr>responseHeaders = JObj kvs\<rparr>)) \<and>
   (truthy (ownProp kvs ''content-security-policy-report-only'') \<or>
    truthy (ownProp kvs ''content-security-policy'') \<longrightarrow>
      (\<exists>kvs'.
         cspListener \<lparr>responseHeaders = JObj kvs\<rparr> =
           (Inr (JObj [(''cancel'', JBool False), (''responseHeaders'', JObj kvs')]),
            \<lparr>responseHeaders = JObj kvs'\<rparr>) \<and>
         ownProp kvs' ''content-security-policy-report-only'' = JUndefined \<and>
         ownProp kvs' ''content-security-policy'' = JUndefined \<and>
         (\<forall>k. k \<noteq> ''content-security-policy-report-only'' \<and> k \<noteq> ''content-security-policy''
               \<longrightarrow> ownProp kvs' k = ownProp kvs k)))"
proof (intro conjI impI)
  assume "\<not> truthy (ownProp kvs ''content-security-policy-report-only'') \<and>
    \<not> truthy (ownProp kvs ''content-security-policy'')"
  then show "cspListener \<lparr>responseHeaders = JObj kvs\<rparr> =
        (Inr (JObj [(''cancel'', JBool False)]), \<lparr>responseHeaders = JObj kvs\<rparr>)"
    by (simp add: cspListener_def)
next
  let ?keep = "\<lambda>k. k \<noteq> ''content-security-policy-report-only'' \<and> k \<noteq> ''content-security-policy''"
  let ?kvs' = "filter (\<lambda>kv. ?keep (fst kv)) kvs"
  assume "truthy (ownProp kvs ''content-security-policy-report-only'') \<or>
    truthy (ownProp kvs ''content-security-policy'')"
  then have "cspListener \<lparr>responseHeaders = JObj kvs\<rparr> =
           (Inr (JObj [(''cancel'', JBool False), (''responseHeaders'', JObj ?kvs')]),
            \<lparr>responseHeaders = JObj ?kvs'\<rparr>)"
    by (auto simp: cspListener_def Let_def)
  moreover have "ownProp ?kvs' ''content-security-policy-report-only'' = JUndefined"
    by (rule ownProp_filter_out) simp
  moreover have "ownProp ?kvs' ''content-security-policy'' = JUndefined"
    by (rule ownProp_filter_out) simp
  moreover have "\<forall>k. ?keep k \<longrightarrow> ownProp ?kvs' k = ownProp kvs k"
    using ownProp_filter_in [of ?keep] by blast
  ultimately show "\<exists>kvs'.
         cspListener \<lparr>responseHeaders = JObj kvs\<rparr> =
           (Inr (JObj [(''cancel'', JBool False), (''responseHeaders'', JObj kvs')]),
            \<lparr>responseHeaders = JObj kvs'\<rparr>) \<and>
         ownProp kvs' ''content-security-policy-report-only'' = JUndefined \<and>
         ownProp kvs' ''content-security-policy'' = JUndefined \<and>
         (\<forall>k. k \<noteq> ''content-security-policy-report-only'' \<and> k \<noteq> ''content-security-policy''
               \<longrightarrow> ownProp kvs' k = ownProp kvs k)"
    by blast
qed

text \<open>
  A response with a content type only, and one that has a policy as well: the first
  is left alone, the second loses the policy and keeps the content type.
\<close>

theorem cspListener_exact_names_witness:
  "cspListener \<lparr>responseHeaders = JObj [(''content-type'', JArr [JStr ''text/html''])]\<rparr> =
     (Inr (JObj [(''cancel'', JBool False)]),
      \<lparr>responseHeaders = JObj [(''content-type'', JArr [JStr ''text/html''])]\<rparr>) \<and>
   truthy (ownProp [(''content-security-policy'', JArr [JStr ''script-src none'']),
                    (''content-type'', JArr [JStr ''text/html''])] ''content-security-policy'') \<and>
   (\<exists>kvs'.
      cspListener \<lparr>responseHeaders =
          JObj [(''content-security-policy'', JArr [JStr ''script-src none'']),
                (''content-type'', JArr [JStr ''text/html''])]\<rparr> =
        (Inr (JObj [(''cancel'', JBool False), (''responseHeaders'', JObj kvs')]),
         \<lparr>responseHeaders = JObj kvs'\<rparr>) \<and>
      ownProp kvs' ''content-security-policy'' = JUndefined \<and>
      ownProp kvs' ''content-type'' = JArr [JStr ''text/html''])"
proof -
  have absent: "\<not> truthy (ownProp [(''content-type'', JArr [JStr ''text/html''])]
                    ''content-security-policy-report-only'') \<and>
                \<not> truthy (ownProp [(''content-type'', JArr [JStr ''text/html''])]
                    ''content-security-policy'')"
    by (simp add: ownProp_def)
  have present: "truthy (ownProp [(''content-security-policy'', JArr [JStr ''script-src none'']),
                    (''content-type'', JArr [JStr ''text/html''])] ''content-security-policy'')"
    by (simp add: ownProp_def)
  have kept: "ownProp [(''content-security-policy'', JArr [JStr ''script-src none'']),
                    (''content-type'', JArr [JStr ''text/html''])] ''content-type'' =
              JArr [JStr ''text/html'']"
    by (simp add: ownProp_def)
  have other: "''content-type'' \<noteq> ''content-security-policy-report-only'' \<and>
               ''content-type'' \<noteq> ''content-security-policy''"
    by simp
  from cspListener_exact_names [of "[(''content-type'', JArr [JStr ''text/html''])]"] absent
  have first: "cspListener \<lparr>responseHeaders = JObj [(''content-type'', JArr [JStr ''text/html''])]\<rparr> =
     (Inr (JObj [(''cancel'', JBool False)]),
      \<lparr>responseHeaders = JObj [(''content-type'', JArr [JStr ''text/html''])]\<rparr>)"
    by blast
  from cspListener_exact_names [of "[(''content-security-policy'', JArr [JStr ''script-src none'']),
                    (''content-type'', JArr [JStr ''text/html''])]"] present
  obtain kvs' where
    "cspListener \<lparr>responseHeaders =
          JObj [(''content-security-policy'', JArr [JStr ''script-src none'']),
                (''content-type'', JArr [JStr ''text/html''])]\<rparr> =
        (Inr (JObj [(''cancel'', JBool False), (''responseHeaders'', JObj kvs')]),
         \<lparr>responseHeaders = JObj kvs'\<rparr>)"
    "ownProp kvs' ''content-security-policy'' = JUndefined"
    "\<forall>k. k \<noteq> ''content-security-policy-report-only'' \<and> k \<noteq> ''content-security-policy''
               \<longrightarrow> ownProp kvs' k =
                   ownProp [(''content-security-policy'', JArr [JStr ''script-src none'']),
                    (''content-type'', JArr [JStr ''text/html''])] k"
    by blast
  with other kept have "\<exists>kvs'.
      cspListener \<lparr>responseHeaders =
          JObj [(''content-security-policy'', JArr [JStr ''script-src none'']),
                (''content-type'', JArr [JStr ''text/html''])]\<rparr> =
        (Inr (JObj [(''cancel'', JBool False), (''responseHeaders'', JObj kvs')]),
         \<lparr>responseHeaders = JObj kvs'\<rparr>) \<and>
      ownProp kvs' ''content-security-policy'' = JUndefined \<and>
      ownProp kvs' ''content-type'' = JArr [JStr ''text/html'']"
    by metis
  with first present show ?thesis by blast
qed

text \<open>
  Claim C7 fails as stated where it has the names recognised without regard to case:
  a policy sent as \<^verbatim>\<open>Content-Security-Policy\<close> is a policy header for the
  specification, and the listener answers \<^verbatim>\<open>{cancel: false}\<close> and leaves it in
  place.
\<close>

theorem cspListener_case_counterexample:
  "spec_hasHeader (JObj [(''Content-Security-Policy'', JArr [JStr ''script-src none''])])
     ''content-security-policy'' \<and>
   cspListener \<lparr>responseHeaders =
       JObj [(''Content-Security-Policy'', JArr [JStr ''script-src none''])]\<rparr> =
     (Inr (JObj [(''cancel'', JBool False)]),
      \<lparr>responseHeaders = JObj [(''Content-Security-Policy'', JArr [JStr ''script-src none''])]\<rparr>)"
proof -
  have "spec_hasHeader (JObj [(''Content-Security-Policy'', JArr [JStr ''script-src none''])])
     ''content-security-policy''"
    by code_simp
  moreover have "cspListener \<lparr>responseHeaders =
       JObj [(''Content-Security-Policy'', JArr [JStr ''script-src none''])]\<rparr> =
     (Inr (JObj [(''cancel'', JBool False)]),
      \<lparr>responseHeaders = JObj [(''Content-Security-Policy'', JArr [JStr ''script-src none''])]\<rparr>)"
    by (simp add: cspListener_def ownProp_def)
  ultimately show ?thesis by blast
qed

section \<open>Plugin loading\<close>

lemma fileExists_activate:
  "fst (fileExists (pathExists env) (pluginPathOf env plugin)
          (activate env plugin options (pluginPathOf env plugin)) s) = None"
  "activated (snd (fileExists (pathExists env) (pluginPathOf env plugin)
          (activate env plugin options (pluginPathOf env plugin)) s)) =
     activated s @ (if hasBackend env plugin then [plugin] else [])"
  by (auto simp: fileExists_def activate_def hasBackend_def
      split: sum.splits prod.splits option.splits)

lemma forEachPlugin_all:
  "fst (forEachPlugin env ps s) = None \<and>
   activated (snd (forEachPlugin env ps s)) =
     activated s @ filter (hasBackend env) (map fst ps)"
proof (induction ps arbitrary: s)
  case Nil
  show ?case by simp
next
  case (Cons po ps)
  obtain plugin options where po: "po = (plugin, options)" by (cases po)
  let ?s1 = "s\<lparr>console := console s @ [''Loaded plugin - '' @ plugin]\<rparr>"
  let ?r = "fileExists (pathExists env) (pluginPathOf env plugin)
              (activate env plugin options (pluginPathOf env plugin)) ?s1"
  obtain s2 where r: "?r = (None, s2)"
    using fileExists_activate(1) [of env plugin options ?s1] by (cases ?r) auto
  have act: "activated s2 = activated s @ (if hasBackend env plugin then [plugin] else [])"
    using fileExists_activate(2) [of env plugin options ?s1] r by simp
  have step: "forEachPlugin env (po # ps) s = forEachPlugin env ps s2"
    using r by (simp add: po Let_def)
  from Cons.IH [of s2] act show ?case
    unfolding step by (simp add: po)
qed

text \<open>
  Claim C9. Whatever the enabled plugins are and whatever their backends do, loading
  ends without an error, and the backends called are, in the order of the list, those
  of all enabled plugins that have one: a plugin without backend file is passed over,
  and a backend that raises does not keep the later ones from being called.
\<close>

theorem loadPlugins_continues:
  "fst (loadPlugins env s) = None \<and>
   activated (snd (loadPlugins env s)) =
     activated s @ filter (hasBackend env) (map fst (getEnabled env))"
  using forEachPlugin_all
    [of env "getEnabled env"
        "(injectCSS (pathJoin env [dirname env, ''youtube-music.css'']) s)
           \<lparr>hooked := hooked (injectCSS (pathJoin env [dirname env, ''youtube-music.css'']) s)
                        @ [''did-finish-load'']\<rparr>"]
  by (simp add: loadPlugins_def Let_def injectCSS_def)

text \<open>
  Three enabled plugins, the first without backend file, the second with a backend
  that raises: the second and the third are called, the error of the second is
  reported, and loading ends normally.
\<close>

theorem loadPlugins_continues_witness:
  "fst (loadPlugins threePlugins loader0) = None \<and>
   activated (snd (loadPlugins threePlugins loader0)) = [''broken'', ''counter''] \<and>
   reported (snd (loadPlugins threePlugins loader0)) = [PluginError] \<and>
   win (snd (loadPlugins threePlugins loader0)) = 1"
proof -
  have f: "filter (hasBackend threePlugins) (map fst (getEnabled threePlugins)) =
             [''broken'', ''counter'']"
    by code_simp
  have r: "reported (snd (loadPlugins threePlugins loader0)) = [PluginError]" by code_simp
  have w: "win (snd (loadPlugins threePlugins loader0)) = 1" by code_simp
  from loadPlugins_continues [of threePlugins loader0] f r w
  show ?thesis by (simp add: loader0_def)
qed

end
